theory Spec2Isabelle
  imports Complex_Main
begin

section \<open>The balance controller of main.cpp\<close>

text \<open>
  The controller is one interrupt handler, \<^verbatim>\<open>ISR(TIMER1_OVF_vect)\<close>, that runs to
  completion on every timer tick. Its static and global variables are gathered in the
  record \<open>isr_state\<close>, the values that \<^verbatim>\<open>analogRead\<close> returns during one tick in
  the record \<open>adc_sample\<close>, and what the tick writes to the motor pins in the record
  \<open>motor_outputs\<close>. The handler is a function from the state before the tick and
  the samples of the tick to the state after it and the pin values written.

  Number types. The C type \<^verbatim>\<open>float\<close> is modelled by \<^typ>\<open>real\<close>: every
  arithmetic operation is exact, and there is no rounding, infinity or NaN. The type
  \<^verbatim>\<open>int\<close> of the readings and \<^verbatim>\<open>long int\<close> of the tick counter and duty
  values is modelled by \<^typ>\<open>int\<close>; \<^verbatim>\<open>analogRead\<close> yields values between 0 and
  1023, the counter of a run from power-on stays between 0 and 1500
  (lemma \<open>loop_count_range\<close>) and the duty values between 0 and 255, so no integer
  operation of the handler overflows.
\<close>

subsection \<open>Constants\<close>

definition ADC_RANGE :: real where
  "ADC_RANGE = 1024"

definition GYRO_MAX_DEG_PER_SEC :: real where
  "GYRO_MAX_DEG_PER_SEC = 150.0"

definition GYRO_DEG_PER_ADC_UNIT :: real where
  "GYRO_DEG_PER_ADC_UNIT = GYRO_MAX_DEG_PER_SEC * 2 / ADC_RANGE"

definition GYRO_RAD_PER_ADC_UNIT :: real where
  "GYRO_RAD_PER_ADC_UNIT = GYRO_DEG_PER_ADC_UNIT * 0.0174532925"

definition ACCEL_MAX_G :: real where
  "ACCEL_MAX_G = 1.7"

definition ACCEL_G_PER_ADC_UNIT :: real where
  "ACCEL_G_PER_ADC_UNIT = ACCEL_MAX_G * 2 / ADC_RANGE"

definition X_OFFSET :: real where
  "X_OFFSET = 8"

definition GAIN :: real where
  "GAIN = 1013.464636"

definition MOTOR_A_FACTOR :: real where
  "MOTOR_A_FACTOR = 1"

definition MOTOR_B_FACTOR :: real where
  "MOTOR_B_FACTOR = 1"

subsection \<open>State, inputs and outputs\<close>

text \<open>The two static arrays \<^verbatim>\<open>xv[3]\<close> and \<^verbatim>\<open>yv[3]\<close> of \<^verbatim>\<open>filterx\<close>.\<close>

record filter_state =
  xv0 :: real
  xv1 :: real
  xv2 :: real
  yv0 :: real
  yv1 :: real
  yv2 :: real

record isr_state =
  fx :: filter_state
  d_tilt_pot :: int
  tilt_pot :: int
  gyro_offset_pot :: int
  gyro_reading :: int
  x_reading :: int
  y_reading :: int
  last_speed :: real
  tilt_rads :: real
  x_filt_gs :: real
  tilt_int_rads :: real
  reset_complete :: bool
  loop_count :: int

text \<open>What \<^verbatim>\<open>analogRead\<close> returns for each pin during one tick.\<close>

record adc_sample =
  adc_gyro :: int
  adc_x :: int
  adc_y :: int
  adc_A3 :: int
  adc_A4 :: int
  adc_A5 :: int

datatype pin_level = LOW | HIGH

record motor_outputs =
  dir_a :: pin_level
  dir_b :: pin_level
  pwm_a :: int
  pwm_b :: int

definition filter_zero :: filter_state where
  "filter_zero = \<lparr>xv0 = 0, xv1 = 0, xv2 = 0, yv0 = 0, yv1 = 0, yv2 = 0\<rparr>"

text \<open>The initial values of the statics and globals.\<close>

definition power_on :: isr_state where
  "power_on = \<lparr>fx = filter_zero, d_tilt_pot = 512, tilt_pot = 512, gyro_offset_pot = 512,
     gyro_reading = 0, x_reading = 0, y_reading = 0, last_speed = 0, tilt_rads = 0,
     x_filt_gs = 0, tilt_int_rads = 0, reset_complete = False, loop_count = 0\<rparr>"

subsection \<open>The x-axis filter\<close>

definition filterx :: "filter_state \<Rightarrow> real \<Rightarrow> real \<times> filter_state" where
  "filterx f inp =
     (let f = f\<lparr>xv0 := xv1 f\<rparr>;
          f = f\<lparr>xv1 := xv2 f\<rparr>;
          f = f\<lparr>xv2 := inp / GAIN\<rparr>;
          f = f\<lparr>yv0 := yv1 f\<rparr>;
          f = f\<lparr>yv1 := yv2 f\<rparr>;
          f = f\<lparr>yv2 := (xv0 f + xv2 f) + 2 * xv1 f
                 + (- 0.9131487721 * yv0 f) + (1.9092019151 * yv1 f)\<rparr>
      in (yv2 f, f))"

text \<open>Feeding a list of samples to the filter, collecting its outputs.\<close>

fun filterx_run :: "filter_state \<Rightarrow> real list \<Rightarrow> real list" where
  "filterx_run f [] = []"
| "filterx_run f (x # xs) = (let (y, f') = filterx f x in y # filterx_run f' xs)"

subsection \<open>The gain macros\<close>

text \<open>
  \<^verbatim>\<open>D_TILT_FACT\<close>, \<^verbatim>\<open>TILT_FACT\<close>, \<^verbatim>\<open>TILT_INT_FACT\<close> and \<^verbatim>\<open>MAX_TILT_INT\<close>
  are macros, expanded where the handler uses them and reading the trim globals there;
  each is a function of the state in which it is expanded.
\<close>

definition D_TILT_FACT :: "isr_state \<Rightarrow> real" where
  "D_TILT_FACT s = (3.5 / 512.0) * real_of_int (d_tilt_pot s) / GYRO_RAD_PER_ADC_UNIT"

definition TILT_FACT :: "isr_state \<Rightarrow> real" where
  "TILT_FACT s = (0.025 / 512.0) * real_of_int (tilt_pot s) / GYRO_RAD_PER_ADC_UNIT"

definition TILT_INT_FACT :: "isr_state \<Rightarrow> real" where
  "TILT_INT_FACT s = (0.002 / 512.0) * 512.0 / GYRO_RAD_PER_ADC_UNIT"

definition MAX_TILT_INT :: "isr_state \<Rightarrow> real" where
  "MAX_TILT_INT s = 300.0 * GYRO_RAD_PER_ADC_UNIT / TILT_INT_FACT s"

subsection \<open>The tick handler\<close>

text \<open>Reading the three sensors into the globals.\<close>

definition read_sensors :: "isr_state \<Rightarrow> adc_sample \<Rightarrow> isr_state" where
  "read_sensors s a =
     (let s = s\<lparr>gyro_reading := adc_gyro a\<rparr>;
          s = s\<lparr>x_reading := adc_x a\<rparr>;
          s = s\<lparr>y_reading := adc_y a\<rparr>
      in s)"

text \<open>Conversion to sensible units.\<close>

definition gyro_offset :: "isr_state \<Rightarrow> real" where
  "gyro_offset s = real_of_int (gyro_offset_pot s - 512) * 0.1"

definition d_tilt_rads :: "isr_state \<Rightarrow> real" where
  "d_tilt_rads s = GYRO_RAD_PER_ADC_UNIT * (real_of_int (512 - gyro_reading s) + gyro_offset s)"

definition x_gs :: "int \<Rightarrow> real" where
  "x_gs x = ACCEL_G_PER_ADC_UNIT * (real_of_int (x - 512) + X_OFFSET)"

definition y_gs :: "int \<Rightarrow> real" where
  "y_gs y = ACCEL_G_PER_ADC_UNIT * real_of_int (y - 512)"

text \<open>
  Lines 138 to 180: the filter call and the three-way branch. The result is the state
  and the value of the local variable \<^verbatim>\<open>speed\<close> when the branch is left.
\<close>

definition update_tilt :: "isr_state \<Rightarrow> isr_state \<times> real" where
  "update_tilt s0 =
     (let d = d_tilt_rads s0;
          x = x_gs (x_reading s0);
          y = y_gs (y_reading s0);
          (x_filt, f) = filterx (fx s0) x;
          s = s0\<lparr>fx := f, x_filt_gs := x_filt\<rparr>
      in if y < 0.1 \<and> \<bar>x_filt_gs s\<bar> > 0.6 then
           (s\<lparr>reset_complete := False\<rparr>, 0)
         else if \<not> reset_complete s then
           (if - 0.02 < x \<and> x < 0.02
            then (s\<lparr>tilt_rads := x, tilt_int_rads := 0, reset_complete := True\<rparr>, 0)
            else (s, 0))
         else
           (let s = s\<lparr>tilt_rads := tilt_rads s + (d + x_filt_gs s)\<rparr>;
                s = s\<lparr>tilt_int_rads := tilt_int_rads s + tilt_rads s\<rparr>;
                s = (if tilt_int_rads s > MAX_TILT_INT s
                     then s\<lparr>tilt_int_rads := MAX_TILT_INT s\<rparr> else s);
                s = (if tilt_int_rads s < - MAX_TILT_INT s
                     then s\<lparr>tilt_int_rads := - MAX_TILT_INT s\<rparr> else s);
                speed = tilt_rads s * TILT_FACT s
                      + tilt_int_rads s * TILT_INT_FACT s
                      + d * D_TILT_FACT s
            in (s\<lparr>last_speed := speed\<rparr>, speed)))"

text \<open>The cast \<^verbatim>\<open>(long int)\<close> of a float drops the fraction (rounds toward zero).\<close>

definition long_int :: "real \<Rightarrow> int" where
  "long_int x = (if 0 \<le> x then \<lfloor>x\<rfloor> else \<lceil>x\<rceil>)"

text \<open>Lines 182 to 205: the direction pins and the duty cycles.\<close>

definition set_motors :: "real \<Rightarrow> motor_outputs" where
  "set_motors speed0 =
     (let da = (if speed0 < 0 then LOW else HIGH);
          db = (if speed0 < 0 then LOW else HIGH);
          speed = 7 * sqrt \<bar>speed0\<bar>;
          speed = (if speed > 255 then 255 else speed);
          motor_a_speed = long_int (speed * MOTOR_A_FACTOR);
          motor_b_speed = long_int (speed * MOTOR_B_FACTOR);
          motor_a_speed = (if motor_a_speed > 255 then 255 else motor_a_speed);
          motor_b_speed = (if motor_b_speed > 255 then 255 else motor_b_speed)
      in \<lparr>dir_a = da, dir_b = db, pwm_a = motor_a_speed, pwm_b = motor_b_speed\<rparr>)"

text \<open>Lines 207 to 220: the staggered reads of the trim pots and the tick counter.\<close>

definition read_trim_pots :: "isr_state \<Rightarrow> adc_sample \<Rightarrow> isr_state" where
  "read_trim_pots s a =
     (let s = (if loop_count s = 500 then s\<lparr>d_tilt_pot := adc_A3 a\<rparr>
               else if loop_count s = 1000 then s\<lparr>tilt_pot := adc_A5 a\<rparr>
               else if loop_count s = 1500
                    then s\<lparr>gyro_offset_pot := adc_A4 a, loop_count := 0\<rparr>
               else s)
      in s\<lparr>loop_count := loop_count s + 1\<rparr>)"

definition ISR_TIMER1_OVF :: "isr_state \<Rightarrow> adc_sample \<Rightarrow> isr_state \<times> motor_outputs" where
  "ISR_TIMER1_OVF s a =
     (let s = read_sensors s a;
          (s, speed) = update_tilt s;
          out = set_motors speed;
          s = read_trim_pots s a
      in (s, out))"

text \<open>The value of the local variable \<^verbatim>\<open>speed\<close> before the output mapping.\<close>

definition ISR_speed :: "isr_state \<Rightarrow> adc_sample \<Rightarrow> real" where
  "ISR_speed s a = snd (update_tilt (read_sensors s a))"

subsection \<open>Runs\<close>

text \<open>
  A run feeds the handler the samples \<open>ins 0\<close>, \<open>ins 1\<close>, ... one tick after the other.
  \<open>state_at s ins n\<close> is the state in which tick \<open>n\<close> starts, \<open>out_at s ins n\<close>
  the pin values tick \<open>n\<close> writes.
\<close>

primrec state_at :: "isr_state \<Rightarrow> (nat \<Rightarrow> adc_sample) \<Rightarrow> nat \<Rightarrow> isr_state" where
  "state_at s ins 0 = s"
| "state_at s ins (Suc n) = fst (ISR_TIMER1_OVF (state_at s ins n) (ins n))"

definition out_at :: "isr_state \<Rightarrow> (nat \<Rightarrow> adc_sample) \<Rightarrow> nat \<Rightarrow> motor_outputs" where
  "out_at s ins n = snd (ISR_TIMER1_OVF (state_at s ins n) (ins n))"

subsection \<open>The conditions of the three-way branch\<close>

text \<open>The condition of the first branch ("We fell over!"), for the tick that starts in
  state \<open>s\<close> and reads the samples \<open>a\<close>.\<close>

definition fell_over :: "isr_state \<Rightarrow> adc_sample \<Rightarrow> bool" where
  "fell_over s a =
     (y_gs (adc_y a) < 0.1 \<and> \<bar>fst (filterx (fx s) (x_gs (adc_x a)))\<bar> > 0.6)"

text \<open>The deadband test of the second branch ("wait until we're righted by the user").\<close>

definition righted :: "adc_sample \<Rightarrow> bool" where
  "righted a = (- 0.02 < x_gs (adc_x a) \<and> x_gs (adc_x a) < 0.02)"

subsection \<open>The sequence of filtered values of a run\<close>

text \<open>The values of \<^verbatim>\<open>x_filt_gs\<close> that the handler computes on a list of ticks.\<close>

fun x_filt_trace :: "isr_state \<Rightarrow> adc_sample list \<Rightarrow> real list" where
  "x_filt_trace s [] = []"
| "x_filt_trace s (a # as) =
     (let s' = fst (ISR_TIMER1_OVF s a) in x_filt_gs s' # x_filt_trace s' as)"

subsection \<open>Concrete samples and runs\<close>

text \<open>Lying on its side with the up axis still reading about 1.7 g: x at full scale.\<close>

definition warm_sample :: adc_sample where
  "warm_sample = \<lparr>adc_gyro = 512, adc_x = 1023, adc_y = 1023,
     adc_A3 = 512, adc_A4 = 512, adc_A5 = 512\<rparr>"

text \<open>Level: \<open>x_gs 504 = 0\<close>.\<close>

definition level_sample :: adc_sample where
  "level_sample = \<lparr>adc_gyro = 512, adc_x = 504, adc_y = 1023,
     adc_A3 = 512, adc_A4 = 512, adc_A5 = 512\<rparr>"

text \<open>A fast rotation (gyro at 0) while the up axis reads about 1.7 g.\<close>

definition kick_sample :: adc_sample where
  "kick_sample = \<lparr>adc_gyro = 0, adc_x = 1023, adc_y = 1023,
     adc_A3 = 512, adc_A4 = 512, adc_A5 = 512\<rparr>"

text \<open>Toppled: \<open>y_gs 512 = 0\<close> and x at full scale.\<close>

definition tipped_sample :: adc_sample where
  "tipped_sample = \<lparr>adc_gyro = 512, adc_x = 1023, adc_y = 512,
     adc_A3 = 512, adc_A4 = 512, adc_A5 = 512\<rparr>"

text \<open>Toppled and rotating fast: \<open>y_gs 512 = 0\<close>, x at full scale, gyro at 0.\<close>

definition shove_sample :: adc_sample where
  "shove_sample = \<lparr>adc_gyro = 0, adc_x = 1023, adc_y = 512,
     adc_A3 = 512, adc_A4 = 512, adc_A5 = 512\<rparr>"

text \<open>
  Fifteen ticks on the side (the filter warms up while the handler waits), one level tick
  (balancing starts), one tick of fast rotation (the integral leaves 0), then toppled.
\<close>

definition tip_ins :: "nat \<Rightarrow> adc_sample" where
  "tip_ins n = (if n < 15 then warm_sample else if n = 15 then level_sample
                else if n = 16 then kick_sample else tipped_sample)"

text \<open>One level tick from power-on, then toppled and rotating fast.\<close>

definition shove_ins :: "nat \<Rightarrow> adc_sample" where
  "shove_ins n = (if n = 0 then level_sample else shove_sample)"

text \<open>A delay line whose last output is not negative and whose next output, on a full-scale
  x sample, exceeds the 0.6 of the fall test.\<close>

definition tipped_filter :: "filter_state \<Rightarrow> bool" where
  "tipped_filter f = (0 \<le> yv2 f \<and> 0.6 < fst (filterx f (x_gs 1023)))"

section \<open>Facts about one tick\<close>

lemmas unit_defs = ADC_RANGE_def GYRO_MAX_DEG_PER_SEC_def GYRO_DEG_PER_ADC_UNIT_def
  GYRO_RAD_PER_ADC_UNIT_def ACCEL_MAX_G_def ACCEL_G_PER_ADC_UNIT_def X_OFFSET_def

lemmas sample_defs = warm_sample_def level_sample_def kick_sample_def tipped_sample_def
  shove_sample_def

lemma snd_ISR: "snd (ISR_TIMER1_OVF s a) = set_motors (ISR_speed s a)"
  by (simp add: ISR_TIMER1_OVF_def ISR_speed_def Let_def split_def)

lemma fst_ISR:
  "fst (ISR_TIMER1_OVF s a) = read_trim_pots (fst (update_tilt (read_sensors s a))) a"
  by (simp add: ISR_TIMER1_OVF_def Let_def split_def)

lemma read_trim_pots_frame [simp]:
  "fx (read_trim_pots s a) = fx s"
  "tilt_rads (read_trim_pots s a) = tilt_rads s"
  "tilt_int_rads (read_trim_pots s a) = tilt_int_rads s"
  "reset_complete (read_trim_pots s a) = reset_complete s"
  "x_filt_gs (read_trim_pots s a) = x_filt_gs s"
  "last_speed (read_trim_pots s a) = last_speed s"
  by (simp_all add: read_trim_pots_def Let_def)

lemma read_sensors_sel [simp]:
  "fx (read_sensors s a) = fx s"
  "tilt_rads (read_sensors s a) = tilt_rads s"
  "tilt_int_rads (read_sensors s a) = tilt_int_rads s"
  "reset_complete (read_sensors s a) = reset_complete s"
  "d_tilt_pot (read_sensors s a) = d_tilt_pot s"
  "tilt_pot (read_sensors s a) = tilt_pot s"
  "gyro_offset_pot (read_sensors s a) = gyro_offset_pot s"
  "loop_count (read_sensors s a) = loop_count s"
  "x_reading (read_sensors s a) = adc_x a"
  "y_reading (read_sensors s a) = adc_y a"
  "gyro_reading (read_sensors s a) = adc_gyro a"
  by (simp_all add: read_sensors_def Let_def)

lemma update_tilt_frame [simp]:
  "d_tilt_pot (fst (update_tilt s)) = d_tilt_pot s"
  "tilt_pot (fst (update_tilt s)) = tilt_pot s"
  "gyro_offset_pot (fst (update_tilt s)) = gyro_offset_pot s"
  "loop_count (fst (update_tilt s)) = loop_count s"
  by (simp_all add: update_tilt_def Let_def split_def)

lemma update_tilt_fx [simp]:
  "fx (fst (update_tilt s)) = snd (filterx (fx s) (x_gs (x_reading s)))"
  "x_filt_gs (fst (update_tilt s)) = fst (filterx (fx s) (x_gs (x_reading s)))"
  by (simp_all add: update_tilt_def Let_def split_def)

text \<open>The three branches, each under the condition that selects it.\<close>

lemma update_tilt_fell:
  assumes "fell_over s a"
  shows "update_tilt (read_sensors s a) =
    ((read_sensors s a)\<lparr>fx := snd (filterx (fx s) (x_gs (adc_x a))),
        x_filt_gs := fst (filterx (fx s) (x_gs (adc_x a))), reset_complete := False\<rparr>, 0)"
  using assms by (simp add: update_tilt_def fell_over_def Let_def split_def)

lemma update_tilt_wait:
  assumes "\<not> fell_over s a" "\<not> reset_complete s" "\<not> righted a"
  shows "update_tilt (read_sensors s a) =
    ((read_sensors s a)\<lparr>fx := snd (filterx (fx s) (x_gs (adc_x a))),
        x_filt_gs := fst (filterx (fx s) (x_gs (adc_x a)))\<rparr>, 0)"
  using assms by (auto simp add: update_tilt_def fell_over_def righted_def Let_def split_def)

lemma update_tilt_righted:
  assumes "\<not> fell_over s a" "\<not> reset_complete s" "righted a"
  shows "update_tilt (read_sensors s a) =
    ((read_sensors s a)\<lparr>fx := snd (filterx (fx s) (x_gs (adc_x a))),
        x_filt_gs := fst (filterx (fx s) (x_gs (adc_x a))),
        tilt_rads := x_gs (adc_x a), tilt_int_rads := 0, reset_complete := True\<rparr>, 0)"
  using assms by (auto simp add: update_tilt_def fell_over_def righted_def Let_def split_def)

lemma update_tilt_balance:
  assumes "\<not> fell_over s a" "reset_complete s"
  shows "snd (update_tilt (read_sensors s a)) =
           tilt_rads (fst (update_tilt (read_sensors s a))) * TILT_FACT s
         + tilt_int_rads (fst (update_tilt (read_sensors s a))) * TILT_INT_FACT s
         + d_tilt_rads (read_sensors s a) * D_TILT_FACT s"
    and "last_speed (fst (update_tilt (read_sensors s a))) = snd (update_tilt (read_sensors s a))"
  using assms
  by (auto simp add: update_tilt_def fell_over_def Let_def split_def TILT_FACT_def
      TILT_INT_FACT_def D_TILT_FACT_def)

lemma speed_zero_unless_balancing:
  "\<not> reset_complete s \<or> fell_over s a \<Longrightarrow> ISR_speed s a = 0"
  by (auto simp add: ISR_speed_def update_tilt_def fell_over_def Let_def split_def)

lemma fx_ISR: "fx (fst (ISR_TIMER1_OVF s a)) = snd (filterx (fx s) (x_gs (adc_x a)))"
  by (simp add: fst_ISR)

lemma x_filt_ISR: "x_filt_gs (fst (ISR_TIMER1_OVF s a)) = fst (filterx (fx s) (x_gs (adc_x a)))"
  by (simp add: fst_ISR)

lemma yv2_filterx: "yv2 (snd (filterx f x)) = fst (filterx f x)"
  by (simp add: filterx_def Let_def)

lemma filterx_explicit:
  "filterx \<lparr>xv0 = a0, xv1 = a1, xv2 = a2, yv0 = b0, yv1 = b1, yv2 = b2\<rparr> inp =
     (a1 + inp / GAIN + 2 * a2 + (- 0.9131487721 * b1) + (1.9092019151 * b2),
      \<lparr>xv0 = a1, xv1 = a2, xv2 = inp / GAIN, yv0 = b1, yv1 = b2,
       yv2 = a1 + inp / GAIN + 2 * a2 + (- 0.9131487721 * b1) + (1.9092019151 * b2)\<rparr>)"
  by (simp add: filterx_def Let_def)

subsection \<open>The output mapping\<close>

lemma set_motors_zero: "pwm_a (set_motors 0) = 0 \<and> pwm_b (set_motors 0) = 0"
  by (simp add: set_motors_def long_int_def Let_def MOTOR_A_FACTOR_def MOTOR_B_FACTOR_def)

lemma set_motors_range:
  "0 \<le> pwm_a (set_motors v) \<and> pwm_a (set_motors v) \<le> 255 \<and>
   0 \<le> pwm_b (set_motors v) \<and> pwm_b (set_motors v) \<le> 255"
  by (simp add: set_motors_def Let_def MOTOR_A_FACTOR_def MOTOR_B_FACTOR_def long_int_def)

lemma set_motors_dir:
  "dir_a (set_motors v) = dir_b (set_motors v)
   \<and> dir_a (set_motors v) = (if v < 0 then LOW else HIGH)"
  by (simp add: set_motors_def Let_def)

lemma set_motors_saturated:
  assumes "(255 / 7)\<^sup>2 < \<bar>v\<bar>"
  shows "pwm_a (set_motors v) = 255 \<and> pwm_b (set_motors v) = 255"
proof -
  have "255 / 7 < sqrt \<bar>v\<bar>" using assms by (rule real_less_rsqrt)
  then have "255 < 7 * sqrt \<bar>v\<bar>" by simp
  then show ?thesis
    by (simp add: set_motors_def Let_def MOTOR_A_FACTOR_def MOTOR_B_FACTOR_def long_int_def)
qed

lemma duty_zero_unless_balancing:
  assumes "\<not> reset_complete s \<or> fell_over s a"
  shows "pwm_a (snd (ISR_TIMER1_OVF s a)) = 0 \<and> pwm_b (snd (ISR_TIMER1_OVF s a)) = 0"
  using assms by (simp only: snd_ISR speed_zero_unless_balancing set_motors_zero)

subsection \<open>The clamp of the integral\<close>

lemma MAX_TILT_INT_pos: "0 < MAX_TILT_INT s"
  by (simp add: MAX_TILT_INT_def TILT_INT_FACT_def unit_defs)

lemma MAX_TILT_INT_const: "MAX_TILT_INT s = MAX_TILT_INT t"
  by (simp add: MAX_TILT_INT_def TILT_INT_FACT_def)

lemma tilt_int_step:
  assumes "\<bar>tilt_int_rads s\<bar> \<le> MAX_TILT_INT s"
  shows "\<bar>tilt_int_rads (fst (ISR_TIMER1_OVF s a))\<bar> \<le> MAX_TILT_INT (fst (ISR_TIMER1_OVF s a))"
proof -
  define M where "M = MAX_TILT_INT s"
  have m: "\<And>t. MAX_TILT_INT t = M" unfolding M_def by (rule MAX_TILT_INT_const)
  have p: "0 < M" unfolding M_def by (rule MAX_TILT_INT_pos)
  show ?thesis using assms p
    unfolding fst_ISR m
    by (auto simp add: update_tilt_def Let_def split_def m)
qed

lemma tilt_int_inv:
  "\<bar>tilt_int_rads (state_at power_on ins n)\<bar> \<le> MAX_TILT_INT (state_at power_on ins n)"
proof (induction n)
  case 0
  show ?case using MAX_TILT_INT_pos [of power_on] by (simp add: power_on_def)
next
  case (Suc n)
  then show ?case by (simp add: tilt_int_step)
qed

lemma balance_integral_pos:
  assumes "\<not> fell_over s a" and "reset_complete s" and "0 \<le> tilt_int_rads s"
    and "0 < tilt_rads s
           + (d_tilt_rads (read_sensors s a) + fst (filterx (fx s) (x_gs (adc_x a))))"
  shows "0 < tilt_int_rads (fst (ISR_TIMER1_OVF s a))"
proof -
  define M where "M = MAX_TILT_INT s"
  have m: "\<And>t. MAX_TILT_INT t = M" unfolding M_def by (rule MAX_TILT_INT_const)
  have p: "0 < M" unfolding M_def by (rule MAX_TILT_INT_pos)
  show ?thesis using assms p
    unfolding fst_ISR
    by (auto simp add: update_tilt_def fell_over_def Let_def split_def m)
qed

section \<open>Facts about runs\<close>

lemma state_at_numeral:
  "state_at s ins (numeral k)
     = fst (ISR_TIMER1_OVF (state_at s ins (pred_numeral k)) (ins (pred_numeral k)))"
  by (simp add: numeral_eq_Suc)

lemma fell_resets:
  "fell_over s a \<Longrightarrow> \<not> reset_complete (fst (ISR_TIMER1_OVF s a))"
  by (simp add: fst_ISR update_tilt_fell)

lemma reset_stays_false:
  assumes "\<not> reset_complete s" "\<not> righted a"
  shows "\<not> reset_complete (fst (ISR_TIMER1_OVF s a))"
proof (cases "fell_over s a")
  case True
  then show ?thesis by (simp add: fst_ISR update_tilt_fell)
next
  case False
  with assms show ?thesis by (simp add: fst_ISR update_tilt_wait)
qed

lemma no_reset_between:
  assumes "\<not> reset_complete (state_at s ins i)"
    and "\<forall>j. i \<le> j \<and> j < k \<longrightarrow> \<not> righted (ins j)" and "i \<le> k"
  shows "\<not> reset_complete (state_at s ins k)"
  using assms(3,2)
proof (induction k rule: dec_induct)
  case base
  show ?case by (rule assms(1))
next
  case (step n)
  then show ?case by (simp add: reset_stays_false)
qed

lemma tilt_frozen:
  assumes "fell_over s a \<or> (\<not> reset_complete s \<and> \<not> righted a)"
  shows "tilt_rads (fst (ISR_TIMER1_OVF s a)) = tilt_rads s"
    and "tilt_int_rads (fst (ISR_TIMER1_OVF s a)) = tilt_int_rads s"
proof -
  have "tilt_rads (fst (ISR_TIMER1_OVF s a)) = tilt_rads s
      \<and> tilt_int_rads (fst (ISR_TIMER1_OVF s a)) = tilt_int_rads s"
  proof (cases "fell_over s a")
    case True
    then show ?thesis by (simp add: fst_ISR update_tilt_fell)
  next
    case False
    with assms show ?thesis by (simp add: fst_ISR update_tilt_wait)
  qed
  then show "tilt_rads (fst (ISR_TIMER1_OVF s a)) = tilt_rads s"
    and "tilt_int_rads (fst (ISR_TIMER1_OVF s a)) = tilt_int_rads s" by simp_all
qed

lemma frozen_between:
  assumes "\<not> reset_complete (state_at s ins i)"
    and "\<forall>j. i \<le> j \<and> j < k \<longrightarrow> \<not> righted (ins j)" and "i \<le> k"
  shows "tilt_rads (state_at s ins k) = tilt_rads (state_at s ins i)
       \<and> tilt_int_rads (state_at s ins k) = tilt_int_rads (state_at s ins i)"
  using assms(3,2)
proof (induction k rule: dec_induct)
  case base
  show ?case by simp
next
  case (step n)
  have "\<not> reset_complete (state_at s ins n)"
    using assms(1) _ step.hyps(1) by (rule no_reset_between) (use step.prems step.hyps in simp)
  moreover have "\<not> righted (ins n)" using step by simp
  ultimately show ?case using step by (simp add: tilt_frozen)
qed

subsection \<open>The filter inside the handler\<close>

lemma x_filt_trace_filterx_run:
  "x_filt_trace s as = filterx_run (fx s) (map (\<lambda>a. x_gs (adc_x a)) as)"
  by (induction as arbitrary: s) (simp_all add: Let_def split_def fx_ISR x_filt_ISR)

subsection \<open>The trim schedule\<close>

lemma read_trim_pots_sched:
  "d_tilt_pot (read_trim_pots s a) = (if loop_count s = 500 then adc_A3 a else d_tilt_pot s)"
  "tilt_pot (read_trim_pots s a) = (if loop_count s = 1000 then adc_A5 a else tilt_pot s)"
  "gyro_offset_pot (read_trim_pots s a)
     = (if loop_count s = 1500 then adc_A4 a else gyro_offset_pot s)"
  "loop_count (read_trim_pots s a) = (if loop_count s = 1500 then 0 else loop_count s) + 1"
  by (simp_all add: read_trim_pots_def Let_def)

lemma ISR_sched:
  "d_tilt_pot (fst (ISR_TIMER1_OVF s a))
     = (if loop_count s = 500 then adc_A3 a else d_tilt_pot s)"
  "tilt_pot (fst (ISR_TIMER1_OVF s a)) = (if loop_count s = 1000 then adc_A5 a else tilt_pot s)"
  "gyro_offset_pot (fst (ISR_TIMER1_OVF s a))
     = (if loop_count s = 1500 then adc_A4 a else gyro_offset_pot s)"
  "loop_count (fst (ISR_TIMER1_OVF s a)) = (if loop_count s = 1500 then 0 else loop_count s) + 1"
  by (simp_all add: fst_ISR read_trim_pots_sched)

text \<open>The counter at the start of tick \<open>n\<close> of a run from power-on: 0, 1, ..., 1500,
  1, ..., 1500, 1, ...\<close>

lemma loop_count_at:
  "loop_count (state_at power_on ins n) = (if n = 0 then 0 else int ((n - 1) mod 1500) + 1)"
proof (induction n)
  case 0
  show ?case by (simp add: power_on_def)
next
  case (Suc n)
  show ?case
  proof (cases "n = 0")
    case True
    then show ?thesis by (simp add: ISR_sched power_on_def)
  next
    case False
    then obtain m where m: "n = Suc m" by (cases n) auto
    have "loop_count (state_at power_on ins n) = int (m mod 1500) + 1"
      using Suc m by simp
    moreover have "(int (m mod 1500) + 1 = 1500) = (Suc m mod 1500 = 0)"
      by (simp add: mod_Suc)
    ultimately show ?thesis
      by (auto simp add: ISR_sched m mod_Suc)
  qed
qed

lemma loop_count_range:
  "0 \<le> loop_count (state_at power_on ins n) \<and> loop_count (state_at power_on ins n) \<le> 1500"
proof -
  have "(n - 1) mod 1500 < 1500" by simp
  then show ?thesis unfolding loop_count_at by (simp del: mod_less_divisor)
qed

lemma loop_count_500: "(loop_count (state_at power_on ins n) = 500) = (n mod 1500 = 500)"
  unfolding loop_count_at by (cases n) (auto simp add: mod_Suc)

lemma loop_count_1000: "(loop_count (state_at power_on ins n) = 1000) = (n mod 1500 = 1000)"
  unfolding loop_count_at by (cases n) (auto simp add: mod_Suc)

lemma loop_count_1500:
  "(loop_count (state_at power_on ins n) = 1500) = (0 < n \<and> n mod 1500 = 0)"
  unfolding loop_count_at by (cases n) (auto simp add: mod_Suc)

lemma same_slot_apart:
  fixes m n :: nat
  assumes "m < n" "m mod 1500 = n mod 1500"
  shows "m + 1500 \<le> n"
proof -
  have "1500 dvd n - m"
    using assms by (simp add: mod_eq_dvd_iff_nat [symmetric])
  moreover have "0 < n - m" using assms(1) by simp
  ultimately have "1500 \<le> n - m" by (rule dvd_imp_le)
  then show ?thesis by simp
qed

section \<open>Two concrete runs\<close>

lemma x_gs_vals: "x_gs 1023 = 8823 / 5120" "x_gs 504 = 0"
  by (simp_all add: x_gs_def unit_defs)

lemma y_gs_vals: "y_gs 1023 = 8687 / 5120" "y_gs 512 = 0"
  by (simp_all add: y_gs_def unit_defs)

lemma righted_samples:
  "\<not> righted warm_sample" "righted level_sample" "\<not> righted kick_sample"
  "\<not> righted tipped_sample" "\<not> righted shove_sample"
  by (simp_all add: righted_def sample_defs x_gs_vals)

lemma not_fell_over_upright: "adc_y a = 1023 \<Longrightarrow> \<not> fell_over s a"
  by (simp add: fell_over_def y_gs_vals)

subsection \<open>Warming the filter, then balancing, then toppled\<close>

text \<open>The delay line after seventeen ticks of \<open>tip_ins\<close>, by exact arithmetic.\<close>

lemma tip_run_filter: "tipped_filter (fx (state_at power_on tip_ins 17))"
  by (simp add: eval_nat_numeral fx_ISR filterx_explicit power_on_def filter_zero_def
      tip_ins_def sample_defs x_gs_vals GAIN_def tipped_filter_def)

lemma tip_run_pots: "gyro_offset_pot (state_at power_on tip_ins n) = 512"
  by (induction n) (simp_all add: power_on_def ISR_sched tip_ins_def sample_defs)

lemma tip_run_15:
  "\<not> reset_complete (state_at power_on tip_ins 15)"
  "tilt_rads (state_at power_on tip_ins 15) = 0"
  "tilt_int_rads (state_at power_on tip_ins 15) = 0"
proof -
  have a: "\<not> reset_complete (state_at power_on tip_ins 0)" by (simp add: power_on_def)
  have b: "\<forall>j. 0 \<le> j \<and> j < 15 \<longrightarrow> \<not> righted (tip_ins j)"
    by (simp add: tip_ins_def righted_samples)
  show "\<not> reset_complete (state_at power_on tip_ins 15)"
    using a b by (rule no_reset_between) simp
  have "tilt_rads (state_at power_on tip_ins 15) = tilt_rads (state_at power_on tip_ins 0)
      \<and> tilt_int_rads (state_at power_on tip_ins 15) = tilt_int_rads (state_at power_on tip_ins 0)"
    using a b by (rule frozen_between) simp
  then show "tilt_rads (state_at power_on tip_ins 15) = 0"
    and "tilt_int_rads (state_at power_on tip_ins 15) = 0"
    by (simp_all add: power_on_def)
qed

lemma tip_run_16:
  "reset_complete (state_at power_on tip_ins 16)"
  "tilt_rads (state_at power_on tip_ins 16) = 0"
  "tilt_int_rads (state_at power_on tip_ins 16) = 0"
proof -
  have s: "state_at power_on tip_ins 16
         = fst (ISR_TIMER1_OVF (state_at power_on tip_ins 15) level_sample)"
    by (simp add: state_at_numeral tip_ins_def)
  have n: "\<not> fell_over (state_at power_on tip_ins 15) level_sample"
    by (rule not_fell_over_upright) (simp add: level_sample_def)
  have u: "update_tilt (read_sensors (state_at power_on tip_ins 15) level_sample) =
    ((read_sensors (state_at power_on tip_ins 15) level_sample)
       \<lparr>fx := snd (filterx (fx (state_at power_on tip_ins 15)) (x_gs (adc_x level_sample))),
        x_filt_gs := fst (filterx (fx (state_at power_on tip_ins 15)) (x_gs (adc_x level_sample))),
        tilt_rads := x_gs (adc_x level_sample), tilt_int_rads := 0, reset_complete := True\<rparr>, 0)"
    using n tip_run_15(1) righted_samples(2) by (rule update_tilt_righted)
  show "reset_complete (state_at power_on tip_ins 16)"
    and "tilt_rads (state_at power_on tip_ins 16) = 0"
    and "tilt_int_rads (state_at power_on tip_ins 16) = 0"
    unfolding s fst_ISR u by (simp_all add: level_sample_def x_gs_vals)
qed

lemma tip_run_17: "0 < tilt_int_rads (state_at power_on tip_ins 17)"
proof -
  have s: "state_at power_on tip_ins 17
         = fst (ISR_TIMER1_OVF (state_at power_on tip_ins 16) kick_sample)"
    by (simp add: state_at_numeral tip_ins_def)
  have n: "\<not> fell_over (state_at power_on tip_ins 16) kick_sample"
    by (rule not_fell_over_upright) (simp add: kick_sample_def)
  have "0 \<le> yv2 (fx (state_at power_on tip_ins 17))"
    using tip_run_filter by (simp add: tipped_filter_def)
  then have f: "0 \<le> fst (filterx (fx (state_at power_on tip_ins 16)) (x_gs (adc_x kick_sample)))"
    unfolding s fx_ISR yv2_filterx .
  have d: "0 < d_tilt_rads (read_sensors (state_at power_on tip_ins 16) kick_sample)"
    by (simp add: d_tilt_rads_def gyro_offset_def tip_run_pots kick_sample_def unit_defs)
  have i: "0 \<le> tilt_int_rads (state_at power_on tip_ins 16)"
    by (simp add: tip_run_16)
  have "0 < tilt_rads (state_at power_on tip_ins 16)
          + (d_tilt_rads (read_sensors (state_at power_on tip_ins 16) kick_sample)
             + fst (filterx (fx (state_at power_on tip_ins 16)) (x_gs (adc_x kick_sample))))"
    using f d by (simp add: tip_run_16)
  with n tip_run_16(1) i show ?thesis
    unfolding s by (rule balance_integral_pos)
qed

lemma tip_run_fell: "fell_over (state_at power_on tip_ins 17) (tip_ins 17)"
  using tip_run_filter
  by (simp add: tipped_filter_def fell_over_def tip_ins_def tipped_sample_def y_gs_vals)

subsection \<open>Level for one tick, then toppled and rotating\<close>

lemma shove_run_1:
  "fst (ISR_TIMER1_OVF power_on level_sample) =
     power_on\<lparr>gyro_reading := 512, x_reading := 504, y_reading := 1023,
       reset_complete := True, loop_count := 1\<rparr>"
  by (simp add: fst_ISR read_trim_pots_def update_tilt_def read_sensors_def filterx_def Let_def
      split_def power_on_def filter_zero_def level_sample_def x_gs_vals y_gs_vals)

lemma shove_run_not_fell:
  "\<not> fell_over (fst (ISR_TIMER1_OVF power_on level_sample)) shove_sample"
  unfolding shove_run_1
  by (simp add: fell_over_def power_on_def filter_zero_def filterx_explicit shove_sample_def
      x_gs_vals y_gs_vals GAIN_def)

lemma shove_run_speed:
  "(255 / 7)\<^sup>2 < \<bar>ISR_speed (fst (ISR_TIMER1_OVF power_on level_sample)) shove_sample\<bar>"
  unfolding shove_run_1
  by (simp add: ISR_speed_def update_tilt_def read_sensors_def Let_def split_def power_on_def
      filter_zero_def filterx_explicit shove_sample_def x_gs_vals y_gs_vals GAIN_def
      d_tilt_rads_def gyro_offset_def MAX_TILT_INT_def TILT_INT_FACT_def TILT_FACT_def
      D_TILT_FACT_def unit_defs power2_eq_square)

lemma shove_run_reset:
  "reset_complete
     (fst (ISR_TIMER1_OVF (fst (ISR_TIMER1_OVF power_on level_sample)) shove_sample))"
  using shove_run_not_fell unfolding fst_ISR [of _ shove_sample]
  by (simp add: update_tilt_def fell_over_def Let_def split_def shove_run_1)

section \<open>The claims\<close>

text \<open>
  Claim C1. On any tick on which the fall condition (\<open>y_gs < 0.1\<close> and the filtered x
  value beyond 0.6 in magnitude) is detected, both duty values written on that tick are 0,
  and both stay 0 on every later tick up to and including the first tick on which a
  sample inside the deadband \<open>-0.02 < x_gs < 0.02\<close> is read.
\<close>

theorem fallen_duty_zero_until_righted:
  assumes "fell_over (state_at s ins i) (ins i)"
    and "i \<le> k"
    and "\<forall>j. i < j \<and> j < k \<longrightarrow> \<not> righted (ins j)"
  shows "pwm_a (out_at s ins k) = 0 \<and> pwm_b (out_at s ins k) = 0"
proof (cases "k = i")
  case True
  with assms(1) show ?thesis
    unfolding out_at_def by (simp add: duty_zero_unless_balancing)
next
  case False
  with assms(2) have le: "Suc i \<le> k" by simp
  have "\<not> reset_complete (state_at s ins (Suc i))"
    using assms(1) by (simp add: fell_resets)
  moreover have "\<forall>j. Suc i \<le> j \<and> j < k \<longrightarrow> \<not> righted (ins j)"
    using assms(3) by simp
  ultimately have "\<not> reset_complete (state_at s ins k)"
    using le by (rule no_reset_between)
  then show ?thesis
    unfolding out_at_def by (simp add: duty_zero_unless_balancing)
qed

text \<open>The run \<open>tip_ins\<close> from power-on: the fall is detected on tick 17, tick 18 reads
  no deadband sample, and tick 19 still writes zero duty.\<close>

theorem fallen_duty_zero_until_righted_witness:
  "fell_over (state_at power_on tip_ins 17) (tip_ins 17)
   \<and> \<not> righted (tip_ins 18)
   \<and> pwm_a (out_at power_on tip_ins 19) = 0 \<and> pwm_b (out_at power_on tip_ins 19) = 0"
proof -
  have r: "\<not> righted (tip_ins 18)"
    by (simp add: tip_ins_def righted_samples)
  have "\<forall>j. 17 < j \<and> j < 19 \<longrightarrow> j = (18::nat)" by auto
  with r have h: "\<forall>j. 17 < j \<and> j < 19 \<longrightarrow> \<not> righted (tip_ins j)" by metis
  have "pwm_a (out_at power_on tip_ins 19) = 0 \<and> pwm_b (out_at power_on tip_ins 19) = 0"
    using tip_run_fell _ h by (rule fallen_duty_zero_until_righted) simp
  with tip_run_fell r show ?thesis by simp
qed

text \<open>
  Claim C2. In every run from power-on, whatever the sensor and trim-pot samples, the
  stored tilt integral lies between \<open>- MAX_TILT_INT\<close> and \<open>MAX_TILT_INT\<close> at the start
  of the run and after every tick.
\<close>

theorem tilt_integral_bounded:
  "- MAX_TILT_INT (state_at power_on ins n) \<le> tilt_int_rads (state_at power_on ins n)
   \<and> tilt_int_rads (state_at power_on ins n) \<le> MAX_TILT_INT (state_at power_on ins n)"
  using tilt_int_inv [of ins n] by (simp add: abs_le_iff)

text \<open>
  Claim C3. On every tick, from any state and for any samples, the two duty values written
  to the motor outputs are each between 0 and 255; the output mapping gives such values
  for every speed command \<open>v\<close>.
\<close>

theorem duty_in_range:
  "0 \<le> pwm_a (out_at s ins n) \<and> pwm_a (out_at s ins n) \<le> 255
   \<and> 0 \<le> pwm_b (out_at s ins n) \<and> pwm_b (out_at s ins n) \<le> 255
   \<and> 0 \<le> pwm_a (set_motors v) \<and> pwm_a (set_motors v) \<le> 255
   \<and> 0 \<le> pwm_b (set_motors v) \<and> pwm_b (set_motors v) \<le> 255"
  unfolding out_at_def snd_ISR
  using set_motors_range [of "ISR_speed (state_at s ins n) (ins n)"] set_motors_range [of v]
  by simp

text \<open>
  Claim C4, as amended. From any prior state (whatever the tilt integral), a tick on which
  \<open>y_gs < 0.1\<close> and the filtered x value, not the raw one, is beyond 0.6 in magnitude
  takes the fall branch: it clears \<open>reset_complete\<close> and writes zero duty to both motors
  on that same tick.
\<close>

theorem fell_over_stops_motors:
  assumes "fell_over s a"
  shows "\<not> reset_complete (fst (ISR_TIMER1_OVF s a))
       \<and> pwm_a (snd (ISR_TIMER1_OVF s a)) = 0 \<and> pwm_b (snd (ISR_TIMER1_OVF s a)) = 0"
  using assms by (simp add: fell_resets duty_zero_unless_balancing)

theorem fell_over_stops_motors_witness:
  "fell_over (state_at power_on tip_ins 17) (tip_ins 17)
   \<and> 0 < tilt_int_rads (state_at power_on tip_ins 17)
   \<and> \<not> reset_complete (fst (ISR_TIMER1_OVF (state_at power_on tip_ins 17) (tip_ins 17)))
   \<and> pwm_a (snd (ISR_TIMER1_OVF (state_at power_on tip_ins 17) (tip_ins 17))) = 0
   \<and> pwm_b (snd (ISR_TIMER1_OVF (state_at power_on tip_ins 17) (tip_ins 17))) = 0"
  using fell_over_stops_motors [OF tip_run_fell] tip_run_fell tip_run_17 by simp

text \<open>
  Claim C4 as stated fails. From power-on, one level tick starts balancing; on the next
  tick the raw samples give \<open>y_gs = 0\<close> and \<open>x_gs > 0.6\<close>, but the filtered x value is
  still near 0, so the fall branch is not taken, \<open>reset_complete\<close> stays set and both
  motors are driven at full duty.
\<close>

theorem raw_tip_does_not_stop_motors:
  "y_gs (adc_y shove_sample) = 0 \<and> 0.6 < \<bar>x_gs (adc_x shove_sample)\<bar>
   \<and> \<not> fell_over (state_at power_on shove_ins 1) (shove_ins 1)
   \<and> reset_complete (state_at power_on shove_ins 2)
   \<and> pwm_a (out_at power_on shove_ins 1) = 255 \<and> pwm_b (out_at power_on shove_ins 1) = 255"
proof -
  have s1: "state_at power_on shove_ins 1 = fst (ISR_TIMER1_OVF power_on level_sample)"
    by (simp add: shove_ins_def)
  have s2: "state_at power_on shove_ins 2
          = fst (ISR_TIMER1_OVF (fst (ISR_TIMER1_OVF power_on level_sample)) shove_sample)"
    by (simp add: shove_ins_def numeral_2_eq_2)
  have i1: "shove_ins 1 = shove_sample" by (simp add: shove_ins_def)
  have "y_gs (adc_y shove_sample) = 0 \<and> 0.6 < \<bar>x_gs (adc_x shove_sample)\<bar>"
    by (simp add: shove_sample_def x_gs_vals y_gs_vals)
  moreover have "pwm_a (out_at power_on shove_ins 1) = 255
               \<and> pwm_b (out_at power_on shove_ins 1) = 255"
    unfolding out_at_def s1 i1 snd_ISR using shove_run_speed by (rule set_motors_saturated)
  ultimately show ?thesis
    unfolding s1 s2 i1 using shove_run_not_fell shove_run_reset by simp
qed

text \<open>
  Claim C5, as amended. On a balancing tick (\<open>reset_complete\<close> set, no fall detected) the
  speed command is \<open>tilt_rads * K_p + tilt_int_rads * K_i + d_tilt_rads * K_d\<close>, with the
  tilt and integral as updated on that tick. \<open>K_p = TILT_FACT\<close> is
  \<open>0.025 / 512 * tilt_pot / GYRO_RAD_PER_ADC_UNIT\<close> and \<open>K_d = D_TILT_FACT\<close> is
  \<open>3.5 / 512 * d_tilt_pot / GYRO_RAD_PER_ADC_UNIT\<close>, each derived from its own trim value;
  \<open>K_i = TILT_INT_FACT\<close> is the fixed constant \<open>0.002 / GYRO_RAD_PER_ADC_UNIT\<close>, which
  no trim value enters. The two ends of the pot range give \<open>K_p\<close> two different values,
  and likewise \<open>K_d\<close>.
\<close>

theorem balancing_speed_law:
  assumes "reset_complete s" and "\<not> fell_over s a"
  shows "ISR_speed s a =
           tilt_rads (fst (ISR_TIMER1_OVF s a)) * TILT_FACT s
         + tilt_int_rads (fst (ISR_TIMER1_OVF s a)) * TILT_INT_FACT s
         + d_tilt_rads (read_sensors s a) * D_TILT_FACT s
       \<and> last_speed (fst (ISR_TIMER1_OVF s a)) = ISR_speed s a
       \<and> TILT_FACT s = (0.025 / 512) * real_of_int (tilt_pot s) / GYRO_RAD_PER_ADC_UNIT
       \<and> D_TILT_FACT s = (3.5 / 512) * real_of_int (d_tilt_pot s) / GYRO_RAD_PER_ADC_UNIT
       \<and> TILT_INT_FACT s = 0.002 / GYRO_RAD_PER_ADC_UNIT
       \<and> TILT_FACT (s\<lparr>tilt_pot := 0\<rparr>) \<noteq> TILT_FACT (s\<lparr>tilt_pot := 1023\<rparr>)
       \<and> D_TILT_FACT (s\<lparr>d_tilt_pot := 0\<rparr>) \<noteq> D_TILT_FACT (s\<lparr>d_tilt_pot := 1023\<rparr>)"
proof -
  have "TILT_FACT (s\<lparr>tilt_pot := 0\<rparr>) \<noteq> TILT_FACT (s\<lparr>tilt_pot := 1023\<rparr>)"
    and "D_TILT_FACT (s\<lparr>d_tilt_pot := 0\<rparr>) \<noteq> D_TILT_FACT (s\<lparr>d_tilt_pot := 1023\<rparr>)"
    by (simp_all add: TILT_FACT_def D_TILT_FACT_def unit_defs)
  with update_tilt_balance [OF assms(2,1)] show ?thesis
    by (simp add: ISR_speed_def fst_ISR TILT_FACT_def D_TILT_FACT_def TILT_INT_FACT_def)
qed

text \<open>The balancing state reached by one level tick from power-on, and a tick of fast
  rotation in it.\<close>

theorem balancing_speed_law_witness:
  "reset_complete (fst (ISR_TIMER1_OVF power_on level_sample))
   \<and> \<not> fell_over (fst (ISR_TIMER1_OVF power_on level_sample)) kick_sample
   \<and> ISR_speed (fst (ISR_TIMER1_OVF power_on level_sample)) kick_sample =
       tilt_rads (fst (ISR_TIMER1_OVF (fst (ISR_TIMER1_OVF power_on level_sample)) kick_sample))
         * TILT_FACT (fst (ISR_TIMER1_OVF power_on level_sample))
     + tilt_int_rads (fst (ISR_TIMER1_OVF (fst (ISR_TIMER1_OVF power_on level_sample)) kick_sample))
         * TILT_INT_FACT (fst (ISR_TIMER1_OVF power_on level_sample))
     + d_tilt_rads (read_sensors (fst (ISR_TIMER1_OVF power_on level_sample)) kick_sample)
         * D_TILT_FACT (fst (ISR_TIMER1_OVF power_on level_sample))"
proof -
  have r: "reset_complete (fst (ISR_TIMER1_OVF power_on level_sample))"
    by (simp add: shove_run_1)
  have n: "\<not> fell_over (fst (ISR_TIMER1_OVF power_on level_sample)) kick_sample"
    by (rule not_fell_over_upright) (simp add: kick_sample_def)
  from balancing_speed_law [OF r n] r n show ?thesis by simp
qed

text \<open>
  Claim C5 as stated fails for the integral gain: \<open>TILT_INT_FACT\<close> takes the same value
  in any two states, so no pair of trim settings gives it different values.
\<close>

theorem integral_gain_fixed: "\<not> (\<exists>s1 s2. TILT_INT_FACT s1 \<noteq> TILT_INT_FACT s2)"
  by (simp add: TILT_INT_FACT_def)

text \<open>
  Claim C6. On a tick that starts with \<open>reset_complete\<close> clear and on which no fall is
  detected, \<open>reset_complete\<close> becomes set (balancing starts) if and only if the sample
  is inside the deadband \<open>-0.02 < x_gs < 0.02\<close>, and then \<open>tilt_rads\<close> is set to \<open>x_gs\<close>
  and \<open>tilt_int_rads\<close> to 0. In a run that starts with \<open>reset_complete\<close> clear and never
  reads a sample inside the deadband, \<open>reset_complete\<close> is clear at the start of every
  tick: the handler waits forever.
\<close>

theorem awaiting_upright_transition:
  "(\<not> reset_complete s \<and> \<not> fell_over s a \<longrightarrow>
      (reset_complete (fst (ISR_TIMER1_OVF s a)) \<longleftrightarrow> righted a) \<and>
      (righted a \<longrightarrow> tilt_rads (fst (ISR_TIMER1_OVF s a)) = x_gs (adc_x a) \<and>
                   tilt_int_rads (fst (ISR_TIMER1_OVF s a)) = 0))
   \<and> (\<not> reset_complete s \<and> (\<forall>n. \<not> righted (ins n)) \<longrightarrow>
        (\<forall>n. \<not> reset_complete (state_at s ins n)))"
proof (intro conjI impI allI)
  assume h: "\<not> reset_complete s \<and> \<not> fell_over s a"
  show "reset_complete (fst (ISR_TIMER1_OVF s a)) \<longleftrightarrow> righted a"
    using h by (cases "righted a") (simp_all add: fst_ISR update_tilt_wait update_tilt_righted)
next
  assume h: "\<not> reset_complete s \<and> \<not> fell_over s a" and r: "righted a"
  then show "tilt_rads (fst (ISR_TIMER1_OVF s a)) = x_gs (adc_x a)"
    and "tilt_int_rads (fst (ISR_TIMER1_OVF s a)) = 0"
    by (simp_all add: fst_ISR update_tilt_righted)
next
  fix n
  assume h: "\<not> reset_complete s \<and> (\<forall>n. \<not> righted (ins n))"
  then have "\<not> reset_complete (state_at s ins 0)" by simp
  moreover have "\<forall>j. 0 \<le> j \<and> j < n \<longrightarrow> \<not> righted (ins j)" using h by simp
  ultimately show "\<not> reset_complete (state_at s ins n)"
    by (rule no_reset_between) simp
qed

text \<open>From power-on: a level tick starts balancing with the seeds; a thousand ticks on the
  side do not.\<close>

theorem awaiting_upright_transition_witness:
  "\<not> reset_complete power_on \<and> \<not> fell_over power_on level_sample \<and> righted level_sample
   \<and> reset_complete (fst (ISR_TIMER1_OVF power_on level_sample))
   \<and> tilt_rads (fst (ISR_TIMER1_OVF power_on level_sample)) = x_gs (adc_x level_sample)
   \<and> tilt_int_rads (fst (ISR_TIMER1_OVF power_on level_sample)) = 0
   \<and> \<not> righted warm_sample
   \<and> \<not> reset_complete (state_at power_on (\<lambda>n. warm_sample) 1000)"
proof -
  have p: "\<not> reset_complete power_on" by (simp add: power_on_def)
  have n: "\<not> fell_over power_on level_sample"
    by (rule not_fell_over_upright) (simp add: level_sample_def)
  from awaiting_upright_transition [of power_on level_sample "\<lambda>n. warm_sample"] p n
  show ?thesis by (simp add: righted_samples)
qed

text \<open>
  Claim C7, as amended. On every tick on which the fall is detected, or which starts with
  \<open>reset_complete\<close> clear and reads no deadband sample, the stored tilt estimate and the
  stored tilt integral are both left as they were before the tick; neither is updated
  until re-leveling. In a run from power-on both are therefore 0 as long as no deadband
  sample has been read.
\<close>

theorem tilt_estimate_frozen:
  "(fell_over s a \<or> (\<not> reset_complete s \<and> \<not> righted a) \<longrightarrow>
      tilt_rads (fst (ISR_TIMER1_OVF s a)) = tilt_rads s
      \<and> tilt_int_rads (fst (ISR_TIMER1_OVF s a)) = tilt_int_rads s)
   \<and> ((\<forall>j<n. \<not> righted (ins j)) \<longrightarrow>
        tilt_rads (state_at power_on ins n) = 0 \<and> tilt_int_rads (state_at power_on ins n) = 0)"
proof (intro conjI impI)
  assume "fell_over s a \<or> (\<not> reset_complete s \<and> \<not> righted a)"
  then show "tilt_rads (fst (ISR_TIMER1_OVF s a)) = tilt_rads s"
    and "tilt_int_rads (fst (ISR_TIMER1_OVF s a)) = tilt_int_rads s"
    by (rule tilt_frozen)+
next
  assume h: "\<forall>j<n. \<not> righted (ins j)"
  have a: "\<not> reset_complete (state_at power_on ins 0)" by (simp add: power_on_def)
  have b: "\<forall>j. 0 \<le> j \<and> j < n \<longrightarrow> \<not> righted (ins j)" using h by simp
  have "tilt_rads (state_at power_on ins n) = tilt_rads (state_at power_on ins 0)
      \<and> tilt_int_rads (state_at power_on ins n) = tilt_int_rads (state_at power_on ins 0)"
    using a b by (rule frozen_between) simp
  then show "tilt_rads (state_at power_on ins n) = 0"
    and "tilt_int_rads (state_at power_on ins n) = 0"
    by (simp_all add: power_on_def)
qed

text \<open>The fall on tick 17 of \<open>tip_ins\<close> leaves the positive integral as it is; ticks on
  the side from power-on leave tilt and integral at 0.\<close>

theorem tilt_estimate_frozen_witness:
  "fell_over (state_at power_on tip_ins 17) (tip_ins 17)
   \<and> tilt_int_rads (fst (ISR_TIMER1_OVF (state_at power_on tip_ins 17) (tip_ins 17)))
       = tilt_int_rads (state_at power_on tip_ins 17)
   \<and> tilt_rads (fst (ISR_TIMER1_OVF (state_at power_on tip_ins 17) (tip_ins 17)))
       = tilt_rads (state_at power_on tip_ins 17)
   \<and> \<not> righted warm_sample
   \<and> tilt_rads (state_at power_on (\<lambda>n. warm_sample) 5) = 0
   \<and> tilt_int_rads (state_at power_on (\<lambda>n. warm_sample) 5) = 0"
  using tilt_estimate_frozen [of "state_at power_on tip_ins 17" "tip_ins 17" 5 "\<lambda>n. warm_sample"]
    tip_run_fell
  by (simp add: righted_samples)

text \<open>
  Claim C7 as stated fails for the integral. In the run \<open>tip_ins\<close> from power-on the fall
  is detected on tick 17, after one balancing tick, and the stored integral after that
  tick is not 0.
\<close>

theorem integral_not_zeroed_by_fall:
  "fell_over (state_at power_on tip_ins 17) (tip_ins 17)
   \<and> tilt_int_rads (state_at power_on tip_ins 18) \<noteq> 0"
proof -
  have s: "state_at power_on tip_ins 18
         = fst (ISR_TIMER1_OVF (state_at power_on tip_ins 17) (tip_ins 17))"
    by (simp add: state_at_numeral)
  have "tilt_int_rads (state_at power_on tip_ins 18) = tilt_int_rads (state_at power_on tip_ins 17)"
    unfolding s using tip_run_fell by (simp add: tilt_frozen)
  with tip_run_17 tip_run_fell show ?thesis by simp
qed

text \<open>
  Claim C8. A tick writes \<open>d_tilt_pot\<close> exactly when it starts with the counter at 500,
  \<open>tilt_pot\<close> exactly when it starts with the counter at 1000, and \<open>gyro_offset_pot\<close>
  exactly when it starts with the counter at 1500, and then the counter is set to 0 before
  the increment that ends every tick; on any other tick the three trims keep their values.
  In a run from power-on the counter is 500 at the start of tick \<open>n\<close> exactly when
  \<open>n mod 1500 = 500\<close>, 1000 exactly when \<open>n mod 1500 = 1000\<close>, and 1500 exactly when
  \<open>n\<close> is a positive multiple of 1500, so two writes of the same trim are at least 1500
  ticks apart.
\<close>

theorem calibration_schedule:
  "d_tilt_pot (fst (ISR_TIMER1_OVF s a)) = (if loop_count s = 500 then adc_A3 a else d_tilt_pot s)
   \<and> tilt_pot (fst (ISR_TIMER1_OVF s a)) = (if loop_count s = 1000 then adc_A5 a else tilt_pot s)
   \<and> gyro_offset_pot (fst (ISR_TIMER1_OVF s a))
        = (if loop_count s = 1500 then adc_A4 a else gyro_offset_pot s)
   \<and> loop_count (fst (ISR_TIMER1_OVF s a)) = (if loop_count s = 1500 then 0 else loop_count s) + 1
   \<and> (loop_count (state_at power_on ins n) = 500 \<longleftrightarrow> n mod 1500 = 500)
   \<and> (loop_count (state_at power_on ins n) = 1000 \<longleftrightarrow> n mod 1500 = 1000)
   \<and> (loop_count (state_at power_on ins n) = 1500 \<longleftrightarrow> 0 < n \<and> n mod 1500 = 0)
   \<and> (\<forall>c \<in> {500, 1000, 1500}. \<forall>m.
        m < n \<and> loop_count (state_at power_on ins m) = c \<and> loop_count (state_at power_on ins n) = c
        \<longrightarrow> m + 1500 \<le> n)"
proof -
  have "\<forall>c \<in> {500, 1000, 1500}. \<forall>m.
        m < n \<and> loop_count (state_at power_on ins m) = c \<and> loop_count (state_at power_on ins n) = c
        \<longrightarrow> m + 1500 \<le> n"
    by (auto simp add: loop_count_500 loop_count_1000 loop_count_1500 intro!: same_slot_apart)
  then show ?thesis
    by (simp only: ISR_sched loop_count_500 loop_count_1000 loop_count_1500 simp_thms)
qed

text \<open>A run from power-on whose A3 sample on tick \<open>n\<close> is \<open>n\<close>: tick 500 stores 500 in
  \<open>d_tilt_pot\<close>, and the next tick that starts with the counter at 500 is tick 2000.\<close>

theorem calibration_schedule_witness:
  "loop_count (state_at power_on (\<lambda>n. warm_sample\<lparr>adc_A3 := int n\<rparr>) 500) = 500
   \<and> loop_count (state_at power_on (\<lambda>n. warm_sample\<lparr>adc_A3 := int n\<rparr>) 2000) = 500
   \<and> d_tilt_pot (fst (ISR_TIMER1_OVF (state_at power_on (\<lambda>n. warm_sample\<lparr>adc_A3 := int n\<rparr>) 500)
                       (warm_sample\<lparr>adc_A3 := 500\<rparr>))) = 500
   \<and> (500::nat) + 1500 \<le> 2000"
proof -
  let ?ins = "\<lambda>n. warm_sample\<lparr>adc_A3 := int n\<rparr>"
  have a: "loop_count (state_at power_on ?ins 500) = 500"
    using calibration_schedule [of "state_at power_on ?ins 500" "?ins 500" ?ins 500] by simp
  have b: "loop_count (state_at power_on ?ins 2000) = 500"
    using calibration_schedule [of "state_at power_on ?ins 500" "?ins 500" ?ins 2000] by simp
  have c: "d_tilt_pot (fst (ISR_TIMER1_OVF (state_at power_on ?ins 500)
                       (warm_sample\<lparr>adc_A3 := 500\<rparr>))) = 500"
    using calibration_schedule [of "state_at power_on ?ins 500" "warm_sample\<lparr>adc_A3 := 500\<rparr>" ?ins 500] a
    by simp
  from a b c show ?thesis by simp
qed

text \<open>
  Claim C9. The x-axis filter is deterministic. Two runs of the handler that start with
  the zeroed delay line and read the same sequence of x samples compute the same sequence
  of filtered values, whatever the rest of the two states and the other samples are; the
  sequence is the one that \<open>filterx\<close> alone computes from the zeroed delay line and the
  converted x samples.
\<close>

theorem filterx_deterministic:
  assumes "fx s1 = filter_zero" and "fx s2 = filter_zero" and "map adc_x as1 = map adc_x as2"
  shows "x_filt_trace s1 as1 = x_filt_trace s2 as2
       \<and> x_filt_trace s1 as1 = filterx_run filter_zero (map (\<lambda>a. x_gs (adc_x a)) as1)"
proof -
  have "map (\<lambda>a. x_gs (adc_x a)) as1 = map x_gs (map adc_x as1)" by simp
  also have "\<dots> = map x_gs (map adc_x as2)" using assms(3) by simp
  also have "\<dots> = map (\<lambda>a. x_gs (adc_x a)) as2" by simp
  finally show ?thesis using assms(1,2) by (simp add: x_filt_trace_filterx_run)
qed

text \<open>Two runs with the same x samples that differ in the state (trims, mode, tilt) and in
  the gyro and y samples.\<close>

theorem filterx_deterministic_witness:
  "fx power_on = filter_zero
   \<and> fx (power_on\<lparr>tilt_pot := 0, tilt_rads := 1, reset_complete := True\<rparr>) = filter_zero
   \<and> map adc_x [warm_sample, tipped_sample] = map adc_x [kick_sample, shove_sample]
   \<and> x_filt_trace power_on [warm_sample, tipped_sample]
       = x_filt_trace (power_on\<lparr>tilt_pot := 0, tilt_rads := 1, reset_complete := True\<rparr>)
           [kick_sample, shove_sample]"
proof -
  have a: "fx power_on = filter_zero" by (simp add: power_on_def)
  have b: "fx (power_on\<lparr>tilt_pot := 0, tilt_rads := 1, reset_complete := True\<rparr>) = filter_zero"
    by (simp add: power_on_def)
  have c: "map adc_x [warm_sample, tipped_sample] = map adc_x [kick_sample, shove_sample]"
    by (simp add: sample_defs)
  from filterx_deterministic [OF a b c] a b c show ?thesis by simp
qed

text \<open>
  Claim C10. On every tick the two direction pins are written with the same value: LOW
  when the speed command before the output mapping is negative, HIGH otherwise, also when
  it is exactly 0.
\<close>

theorem motor_directions_agree:
  "dir_a (snd (ISR_TIMER1_OVF s a)) = dir_b (snd (ISR_TIMER1_OVF s a))
   \<and> dir_a (snd (ISR_TIMER1_OVF s a)) = (if ISR_speed s a < 0 then LOW else HIGH)"
  unfolding snd_ISR by (rule set_motors_dir)

end
